theory Spec2Isabelle
  imports Complex_Main "HOL-Library.AList" "HOL-Library.Sublist"
begin

section \<open>Documents\<close>

text \<open>
  The workers config is read from a YAML file into a plain JavaScript value, and the
  TypeScript types \<open>ConfigV0\<close>, \<open>ConfigV1\<close>, \<open>Deal\<close> and \<open>Host\<close> are erased at run
  time: what the schema validators and the migration receive is a JSON value. An object
  is the list of its own properties in key iteration order (the order of
  \<open>Object.entries\<close>); a JavaScript object holds every key once.
\<close>

datatype json =
    JNull
  | JBool bool
  | JNum rat
  | JStr string
  | JArr "json list"
  | JObj "(string \<times> json) list"

text \<open>Property read \<open>x.k\<close>: \<open>None\<close> stands for \<open>undefined\<close>.\<close>

fun get :: "json \<Rightarrow> string \<Rightarrow> json option" where
  "get (JObj es) k = map_of es k"
| "get _ k = None"

text \<open>
  \<open>Object.entries(x ?? {})\<close> for a property \<open>x\<close> that is absent, null or an object.
  The schema check at the head of the migration leaves no other shape (lemma
  \<open>v0_closed\<close>).
\<close>

fun objectEntries :: "json option \<Rightarrow> (string \<times> json) list" where
  "objectEntries (Some (JObj es)) = es"
| "objectEntries _ = []"

text \<open>A string property spliced into a template literal.\<close>

fun interpolate :: "json option \<Rightarrow> string" where
  "interpolate (Some (JStr s)) = s"
| "interpolate (Some JNull) = ''null''"
| "interpolate _ = ''undefined''"

section \<open>Schemas and their validator\<close>

text \<open>
  The schema literals of \<open>workers.ts\<close> use the keywords \<open>type\<close>, \<open>nullable\<close>,
  \<open>enum\<close>, \<open>const\<close>, \<open>items\<close>, \<open>properties\<close>, \<open>required\<close> and
  \<open>additionalProperties\<close>. A schema is its \<open>type\<close> with the keywords that apply to
  that type: \<open>SString nullable enum\<close>, \<open>SInteger const\<close>, \<open>SArray items\<close> and
  \<open>SObject nullable properties required additionalProperties\<close>, where
  \<open>additionalProperties\<close> is \<open>None\<close> for \<open>false\<close> and \<open>Some s\<close> for a schema.
\<close>

datatype schema =
    SString bool "string list option"
  | SInteger "int option"
  | SArray schema
  | SObject bool "(string \<times> schema) list" "string list" "schema option"

datatype ValidationError = ValidationError (instancePath: string) (message: string)

text \<open>A JavaScript number that holds an integer (\<open>type: "integer"\<close>).\<close>

definition isInteger :: "rat \<Rightarrow> bool" where
  "isInteger q = (of_int \<lfloor>q\<rfloor> = q)"

function showNat :: "nat \<Rightarrow> string" where
  "showNat n =
     (if n < 10 then [char_of (48 + n)]
      else showNat (n div 10) @ [char_of (48 + n mod 10)])"
  by pat_completeness auto
termination
  by (relation "measure id") auto

text \<open>
  The validator compiled by \<open>ajv.compile\<close>: the list of violations, empty for a valid
  value. \<open>nullable\<close> widens the \<open>type\<close> keyword only; \<open>enum\<close> and \<open>const\<close>
  compare the value itself; \<open>properties\<close>, \<open>required\<close> and
  \<open>additionalProperties\<close> look at objects, \<open>items\<close> at arrays. Whether a value is
  valid rests on the keywords alone. That the list holds every violation, not the first
  alone, follows the spec: the instance \<open>ajv\<close> is configured in \<open>ajvInstance.js\<close>,
  which is not under src.
\<close>

function validate :: "schema \<Rightarrow> string \<Rightarrow> json \<Rightarrow> ValidationError list"
  and validateProperties ::
    "(string \<times> schema) list \<Rightarrow> string \<Rightarrow> (string \<times> json) list \<Rightarrow> ValidationError list"
where
  "validate (SString nullable enum) path v =
     (case v of
        JStr s \<Rightarrow> []
      | JNull \<Rightarrow> if nullable then [] else [ValidationError path ''must be string'']
      | _ \<Rightarrow> [ValidationError path ''must be string''])
     @ (case enum of
          None \<Rightarrow> []
        | Some allowed \<Rightarrow>
            if v \<in> set (map JStr allowed) then []
            else [ValidationError path ''must be equal to one of the allowed values''])"
| "validate (SInteger const) path v =
     (case v of
        JNum q \<Rightarrow> if isInteger q then [] else [ValidationError path ''must be integer'']
      | _ \<Rightarrow> [ValidationError path ''must be integer''])
     @ (case const of
          None \<Rightarrow> []
        | Some c \<Rightarrow>
            if v = JNum (of_int c) then []
            else [ValidationError path ''must be equal to constant''])"
| "validate (SArray items) path v =
     (case v of
        JArr xs \<Rightarrow>
          concat (map (\<lambda>(i, x). validate items (path @ ''/'' @ showNat i) x)
                      (zip [0 ..< length xs] xs))
      | _ \<Rightarrow> [ValidationError path ''must be array''])"
| "validate (SObject nullable properties required additionalProperties) path v =
     (case v of
        JObj es \<Rightarrow>
          map (\<lambda>k. ValidationError path (''must have required property '' @ k))
              (filter (\<lambda>k. map_of es k = None) required)
          @ validateProperties properties path es
          @ concat (map (\<lambda>(k, x).
                case additionalProperties of
                  None \<Rightarrow> [ValidationError path ''must NOT have additional properties'']
                | Some s \<Rightarrow> validate s (path @ ''/'' @ k) x)
              (filter (\<lambda>(k, x). map_of properties k = None) es))
      | JNull \<Rightarrow> if nullable then [] else [ValidationError path ''must be object'']
      | _ \<Rightarrow> [ValidationError path ''must be object''])"
| "validateProperties [] path es = []"
| "validateProperties ((k, s) # ps) path es =
     (case map_of es k of
        None \<Rightarrow> []
      | Some x \<Rightarrow> validate s (path @ ''/'' @ k) x)
     @ validateProperties ps path es"
  by pat_completeness auto
termination
  apply (relation "measure (\<lambda>x. case x of
            Inl (s, p, v) \<Rightarrow> size s
          | Inr (ps, p, es) \<Rightarrow> size_list (size_prod (\<lambda>_. 0) size) ps)")
  apply auto
  done

subsection \<open>Environments\<close>

text \<open>
  \<open>FluenceEnv\<close> is the closed set of environment names that the version-1 schema lists
  as the keys of \<open>deals\<close> and \<open>hosts\<close>. \<open>ChainENV\<close>, the type of the legacy
  \<open>chainNetwork\<close> field, indexes the same maps, so it is a part of \<open>FluenceEnv\<close>; its
  members are the constant \<open>CHAIN_ENV\<close> of \<open>const.ts\<close>, a parameter here, as is
  \<open>DEFAULT_PUBLIC_FLUENCE_ENV\<close>.
\<close>

datatype FluenceEnv = Custom | Dar | Kras | Local | Stage

fun envName :: "FluenceEnv \<Rightarrow> string" where
  "envName Custom = ''custom''"
| "envName Dar = ''dar''"
| "envName Kras = ''kras''"
| "envName Local = ''local''"
| "envName Stage = ''stage''"

definition envOfName :: "string \<Rightarrow> FluenceEnv option" where
  "envOfName s =
     (if s = ''custom'' then Some Custom
      else if s = ''dar'' then Some Dar
      else if s = ''kras'' then Some Kras
      else if s = ''local'' then Some Local
      else if s = ''stage'' then Some Stage
      else None)"

subsection \<open>The schemas of workers.ts\<close>

definition workerInfoProperties :: "(string \<times> schema) list" where
  "workerInfoProperties =
     [(''definition'', SString False None), (''timestamp'', SString False None)]"

definition workerInfoRequired :: "string list" where
  "workerInfoRequired = [''timestamp'', ''definition'']"

definition workerInfoSchema :: schema where
  "workerInfoSchema = SObject False workerInfoProperties workerInfoRequired None"

definition hostSchema :: schema where
  "hostSchema =
     SObject False
       (workerInfoProperties @
        [(''dummyDealId'', SString False None),
         (''installation_spells'',
            SArray (SObject False
              [(''host_id'', SString False None),
               (''spell_id'', SString False None),
               (''worker_id'', SString False None)]
              [''host_id'', ''spell_id'', ''worker_id'']
              None)),
         (''relayId'', SString False None)])
       (workerInfoRequired @ [''installation_spells'', ''relayId'', ''dummyDealId''])
       None"

definition dealSchema :: "FluenceEnv list \<Rightarrow> schema" where
  "dealSchema CHAIN_ENV =
     SObject False
       (workerInfoProperties @
        [(''dealId'', SString False None),
         (''dealIdOriginal'', SString False None),
         (''chainNetwork'', SString True (Some (map envName CHAIN_ENV))),
         (''chainNetworkId'', SInteger None)])
       (workerInfoRequired @ [''dealId'', ''dealIdOriginal'', ''chainNetworkId''])
       None"

definition mapOfDealsSchema :: "FluenceEnv list \<Rightarrow> schema" where
  "mapOfDealsSchema CHAIN_ENV =
     SObject True
       [(''Worker_deployed_using_deals'', dealSchema CHAIN_ENV)]
       []
       (Some (dealSchema CHAIN_ENV))"

definition mapOfHostsSchema :: schema where
  "mapOfHostsSchema =
     SObject True
       [(''Worker_deployed_using_direct_hosting'', hostSchema)]
       []
       (Some hostSchema)"

definition configSchemaV0 :: "FluenceEnv list \<Rightarrow> schema" where
  "configSchemaV0 CHAIN_ENV =
     SObject False
       [(''version'', SInteger (Some 0)),
        (''deals'', mapOfDealsSchema CHAIN_ENV),
        (''hosts'', mapOfHostsSchema)]
       [''version'']
       None"

definition configSchemaV1 :: "FluenceEnv list \<Rightarrow> schema" where
  "configSchemaV1 CHAIN_ENV =
     SObject False
       [(''version'', SInteger (Some 1)),
        (''deals'',
           SObject True
             [(''custom'', mapOfDealsSchema CHAIN_ENV),
              (''dar'', mapOfDealsSchema CHAIN_ENV),
              (''kras'', mapOfDealsSchema CHAIN_ENV),
              (''local'', mapOfDealsSchema CHAIN_ENV),
              (''stage'', mapOfDealsSchema CHAIN_ENV)]
             []
             None),
        (''hosts'',
           SObject True
             [(''custom'', mapOfHostsSchema),
              (''dar'', mapOfHostsSchema),
              (''kras'', mapOfHostsSchema),
              (''local'', mapOfHostsSchema),
              (''stage'', mapOfHostsSchema)]
             []
             None)]
       [''version'']
       None"

definition validateConfigSchemaV0 :: "FluenceEnv list \<Rightarrow> json \<Rightarrow> ValidationError list" where
  "validateConfigSchemaV0 CHAIN_ENV config = validate (configSchemaV0 CHAIN_ENV) [] config"

definition validateConfigSchemaV1 :: "FluenceEnv list \<Rightarrow> json \<Rightarrow> ValidationError list" where
  "validateConfigSchemaV1 CHAIN_ENV config = validate (configSchemaV1 CHAIN_ENV) [] config"

section \<open>The operator prompt\<close>

text \<open>
  Modelled from the spec: \<open>fluenceEnvPrompt\<close> of \<open>resolveFluenceEnv.js\<close> is not
  under src. It is the operator prompt interface
  \<open>prompt(question, suggestedDefault?) -> T\<close>: the migration supplies the question and
  a suggested default, the collaborator collects one value of the fixed set
  \<open>FluenceEnv\<close>. The collaborator is the parameter \<open>ask\<close>, a function of its own
  state \<open>'p\<close>; each call is recorded with its answer, in order.
\<close>

record PromptCall =
  question :: string
  suggested :: "FluenceEnv option"
  answer :: FluenceEnv

type_synonym 'p operator = "'p \<Rightarrow> string \<Rightarrow> FluenceEnv option \<Rightarrow> FluenceEnv \<times> 'p"

definition fluenceEnvPrompt ::
  "'p operator \<Rightarrow> string \<Rightarrow> FluenceEnv option \<Rightarrow> 'p \<times> PromptCall list
     \<Rightarrow> FluenceEnv \<times> ('p \<times> PromptCall list)"
where
  "fluenceEnvPrompt ask msg defaultVal st =
     (case ask (fst st) msg defaultVal of
        (env, p') \<Rightarrow>
          (env, (p', snd st @ [\<lparr>question = msg, suggested = defaultVal, answer = env\<rparr>])))"

text \<open>
  Two operators for running the migration on examples: one reads canned answers from a
  list (and takes the suggestion, else \<open>custom\<close>, once the list is used up), one
  accepts every suggestion.
\<close>

fun cannedAnswers :: "FluenceEnv list operator" where
  "cannedAnswers (a # as) msg defaultVal = (a, as)"
| "cannedAnswers [] msg defaultVal =
     (case defaultVal of Some e \<Rightarrow> (e, []) | None \<Rightarrow> (Custom, []))"

definition acceptSuggested :: "FluenceEnv \<Rightarrow> unit operator" where
  "acceptSuggested fallback p msg defaultVal =
     (case defaultVal of Some e \<Rightarrow> (e, p) | None \<Rightarrow> (fallback, p))"

section \<open>The migration from version 0 to version 1\<close>

type_synonym Deals = "(FluenceEnv \<times> (string \<times> json) list) list"
type_synonym Hosts = "(FluenceEnv \<times> (string \<times> json) list) list"

text \<open>
  \<open>Error\<close> is the JavaScript error thrown by the migration; \<open>UnknownVersion\<close> and
  \<open>ValidationFailure\<close> are the driver's failures.
\<close>

datatype error = Error string | UnknownVersion | ValidationFailure "ValidationError list"

text \<open>
  Modelled from the spec: \<open>validationErrorToString\<close> of \<open>ajvInstance.js\<close> is not
  under src. The message enumerates every schema violation found, each with its field
  path and reason.
\<close>

definition errorToString :: "ValidationError \<Rightarrow> string" where
  "errorToString e = instancePath e @ '' '' @ message e"

definition validationErrorToString :: "ValidationError list \<Rightarrow> string" where
  "validationErrorToString errors = concat (map (\<lambda>e. errorToString e @ [CHR 10]) errors)"

text \<open>\<open>deal.chainNetwork\<close>, read as a \<open>ChainENV\<close>; absent and null are both \<open>None\<close>.\<close>

definition chainNetwork :: "json \<Rightarrow> FluenceEnv option" where
  "chainNetwork deal =
     (case get deal ''chainNetwork'' of
        Some (JStr s) \<Rightarrow> envOfName s
      | _ \<Rightarrow> None)"

definition dealQuestion :: "string \<Rightarrow> string \<Rightarrow> json \<Rightarrow> string" where
  "dealQuestion configPath workerName deal =
     ''Select the environment that you used for deploying worker '' @ workerName
     @ '' with dealId: '' @ interpolate (get deal ''dealId'') @ '' at '' @ configPath"

definition hostQuestion :: "string \<Rightarrow> string \<Rightarrow> json \<Rightarrow> string" where
  "hostQuestion configPath workerName host =
     ''Select the environment that you used for deploying worker '' @ workerName
     @ '' with dummyDealId: '' @ interpolate (get host ''dummyDealId'') @ '' at '' @ configPath"

text \<open>
  The body of the first loop after the prompt. \<open>dealsForEnv\<close> is looked up under the
  answer \<open>env\<close>; when there is none, the fresh object is stored under
  \<open>deal.chainNetwork ?? DEFAULT_PUBLIC_FLUENCE_ENV\<close>, replacing what that key held.
  Every sub-object is created here and stored under one key, so writing the record into
  \<open>dealsForEnv\<close> changes the entry of that one key. An assignment to a key the object
  has keeps the key's place, one to a new key puts it last; the entries arrive in key
  iteration order, so each sub-object lists its records in that order too.
\<close>

definition putDeal :: "FluenceEnv \<Rightarrow> FluenceEnv \<Rightarrow> string \<Rightarrow> json \<Rightarrow> Deals \<Rightarrow> Deals" where
  "putDeal DEFAULT_PUBLIC_FLUENCE_ENV env workerName deal deals =
     (case map_of deals env of
        None \<Rightarrow>
          AList.update
            (case chainNetwork deal of Some c \<Rightarrow> c | None \<Rightarrow> DEFAULT_PUBLIC_FLUENCE_ENV)
            [(workerName, deal)] deals
      | Some dealsForEnv \<Rightarrow>
          AList.update env (AList.update workerName deal dealsForEnv) deals)"

text \<open>The body of the second loop: the fresh object is stored under \<open>env\<close>.\<close>

definition putHost :: "FluenceEnv \<Rightarrow> string \<Rightarrow> json \<Rightarrow> Hosts \<Rightarrow> Hosts" where
  "putHost env workerName host hosts =
     (case map_of hosts env of
        None \<Rightarrow> AList.update env [(workerName, host)] hosts
      | Some hostsForEnv \<Rightarrow>
          AList.update env (AList.update workerName host hostsForEnv) hosts)"

fun dealsLoop ::
  "'p operator \<Rightarrow> string \<Rightarrow> FluenceEnv \<Rightarrow> (string \<times> json) list \<Rightarrow> Deals
     \<Rightarrow> 'p \<times> PromptCall list \<Rightarrow> Deals \<times> ('p \<times> PromptCall list)"
where
  "dealsLoop ask configPath dflt [] deals st = (deals, st)"
| "dealsLoop ask configPath dflt ((workerName, deal) # rest) deals st =
     (case fluenceEnvPrompt ask (dealQuestion configPath workerName deal) (chainNetwork deal) st of
        (env, st') \<Rightarrow>
          dealsLoop ask configPath dflt rest (putDeal dflt env workerName deal deals) st')"

fun hostsLoop ::
  "'p operator \<Rightarrow> string \<Rightarrow> (string \<times> json) list \<Rightarrow> Hosts
     \<Rightarrow> 'p \<times> PromptCall list \<Rightarrow> Hosts \<times> ('p \<times> PromptCall list)"
where
  "hostsLoop ask configPath [] hosts st = (hosts, st)"
| "hostsLoop ask configPath ((workerName, host) # rest) hosts st =
     (case fluenceEnvPrompt ask (hostQuestion configPath workerName host) (Some Custom) st of
        (env, st') \<Rightarrow>
          hostsLoop ask configPath rest (putHost env workerName host hosts) st')"

definition envMapJson :: "(FluenceEnv \<times> (string \<times> json) list) list \<Rightarrow> json" where
  "envMapJson m = JObj (map (\<lambda>(env, records). (envName env, JObj records)) m)"

text \<open>
  The single element of \<open>migrations\<close>. \<open>configPath\<close> is
  \<open>join(getFluenceDir(), WORKERS_CONFIG_FULL_FILE_NAME)\<close>. The result is the thrown
  error or the returned document, with the operator's state and the prompts issued.
\<close>

definition migration ::
  "'p operator \<Rightarrow> string \<Rightarrow> FluenceEnv \<Rightarrow> FluenceEnv list \<Rightarrow> json
     \<Rightarrow> 'p \<times> PromptCall list \<Rightarrow> (error + json) \<times> ('p \<times> PromptCall list)"
where
  "migration ask configPath DEFAULT_PUBLIC_FLUENCE_ENV CHAIN_ENV config st =
     (case validateConfigSchemaV0 CHAIN_ENV config of
        e # es \<Rightarrow>
          (Inl (Error (''Migration error. Errors: '' @ validationErrorToString (e # es))), st)
      | [] \<Rightarrow>
          (case dealsLoop ask configPath DEFAULT_PUBLIC_FLUENCE_ENV
                  (objectEntries (get config ''deals'')) [] st of
             (deals, st1) \<Rightarrow>
               (case hostsLoop ask configPath (objectEntries (get config ''hosts'')) [] st1 of
                  (hosts, st2) \<Rightarrow>
                    (Inr (JObj ([(''version'', JNum 1)]
                            @ (if deals = [] then [] else [(''deals'', envMapJson deals)])
                            @ (if hosts = [] then [] else [(''hosts'', envMapJson hosts)]))),
                     st2))))"

text \<open>The record stored in a document under a kind, a category and a record name.\<close>

definition recordAt :: "json \<Rightarrow> string \<Rightarrow> FluenceEnv \<Rightarrow> string \<Rightarrow> json option" where
  "recordAt doc kind env workerName =
     (case get doc kind of
        None \<Rightarrow> None
      | Some byEnv \<Rightarrow>
          (case get byEnv (envName env) of
             None \<Rightarrow> None
           | Some records \<Rightarrow> get records workerName))"

section \<open>The migration chain and its driver\<close>

type_synonym 's step = "json \<Rightarrow> 's \<Rightarrow> (error + json) \<times> 's"

text \<open>The array \<open>migrations\<close> and the schema list of \<open>initConfigOptions\<close>.\<close>

definition migrations ::
  "'p operator \<Rightarrow> string \<Rightarrow> FluenceEnv \<Rightarrow> FluenceEnv list \<Rightarrow> ('p \<times> PromptCall list) step list"
where
  "migrations ask configPath DEFAULT_PUBLIC_FLUENCE_ENV CHAIN_ENV =
     [migration ask configPath DEFAULT_PUBLIC_FLUENCE_ENV CHAIN_ENV]"

definition allSchemas :: "FluenceEnv list \<Rightarrow> schema list" where
  "allSchemas CHAIN_ENV = [configSchemaV0 CHAIN_ENV, configSchemaV1 CHAIN_ENV]"

definition versionOf :: "json \<Rightarrow> nat option" where
  "versionOf doc =
     (case get doc ''version'' of
        Some (JNum q) \<Rightarrow> if isInteger q \<and> 0 \<le> q then Some (nat \<lfloor>q\<rfloor>) else None
      | _ \<Rightarrow> None)"

text \<open>
  Modelled from the spec: the driver of \<open>initConfig.js\<close> (\<open>getConfigInitFunction\<close>)
  is not under src. The migration chain is a strict left-to-right fold over the ordered
  steps whose domain starts at the document's version, and it stops at the first step
  that fails.
\<close>

fun runSteps :: "'s step list \<Rightarrow> json \<Rightarrow> 's \<Rightarrow> (error + json) \<times> 's" where
  "runSteps [] doc st = (Inr doc, st)"
| "runSteps (step # steps) doc st =
     (case step doc st of
        (Inl e, st') \<Rightarrow> (Inl e, st')
      | (Inr doc', st') \<Rightarrow> runSteps steps doc' st')"

definition migrate :: "'s step list \<Rightarrow> nat \<Rightarrow> json \<Rightarrow> 's \<Rightarrow> (error + json) \<times> 's" where
  "migrate steps fromVersion doc st = runSteps (drop fromVersion steps) doc st"

text \<open>
  Modelled from the spec: the driver's states Validating and Migrating. A version with
  no registered schema is fatal; the document is validated against the schema of its
  declared version; at the latest version it is loaded directly, below it the chain runs
  and its result is validated against the latest schema.
\<close>

definition loadConfig ::
  "schema list \<Rightarrow> 's step list \<Rightarrow> json \<Rightarrow> 's \<Rightarrow> (error + json) \<times> 's"
where
  "loadConfig schemas steps doc st =
     (case versionOf doc of
        None \<Rightarrow> (Inl UnknownVersion, st)
      | Some v \<Rightarrow>
          if length schemas \<le> v then (Inl UnknownVersion, st)
          else
            (case validate (schemas ! v) [] doc of
               e # es \<Rightarrow> (Inl (ValidationFailure (e # es)), st)
             | [] \<Rightarrow>
                 if Suc v = length schemas then (Inr doc, st)
                 else
                   (case migrate steps v doc st of
                      (Inl e, st') \<Rightarrow> (Inl e, st')
                    | (Inr doc', st') \<Rightarrow>
                        (case validate (last schemas) [] doc' of
                           e # es \<Rightarrow> (Inl (ValidationFailure (e # es)), st')
                         | [] \<Rightarrow> (Inr doc', st')))))"

section \<open>Example documents\<close>

definition exampleChainEnv :: "FluenceEnv list" where
  "exampleChainEnv = [Kras, Dar, Stage, Local]"

definition exampleDeal :: "string \<Rightarrow> string \<Rightarrow> json" where
  "exampleDeal dealId network =
     JObj [(''dealId'', JStr dealId), (''dealIdOriginal'', JStr ''0xABC''),
           (''chainNetworkId'', JNum 1), (''chainNetwork'', JStr network),
           (''timestamp'', JStr ''t''), (''definition'', JStr ''cid1'')]"


text \<open>Scenario A of the spec: one deal whose \<open>chainNetwork\<close> is \<open>kras\<close>.\<close>

definition scenarioA :: json where
  "scenarioA = JObj [(''version'', JNum 0), (''deals'', JObj [(''alice'', exampleDeal ''x1'' ''kras'')])]"

text \<open>Two deals, both deployed to \<open>kras\<close>.\<close>

definition twoDeals :: json where
  "twoDeals =
     JObj [(''version'', JNum 0),
           (''deals'', JObj [(''alice'', exampleDeal ''x1'' ''kras''),
                             (''bob'', exampleDeal ''x2'' ''kras'')])]"


text \<open>A document at version 1.\<close>

definition latestDoc :: json where
  "latestDoc =
     JObj [(''version'', JNum 1),
           (''deals'', JObj [(''kras'', JObj [(''alice'', exampleDeal ''x1'' ''kras'')])])]"

section \<open>The loops as functions of the answers\<close>

text \<open>
  What the two loops build, given the operator's answers in order: the loop bodies
  \<open>putDeal\<close> and \<open>putHost\<close> folded over the entries.
\<close>

fun placeDeals :: "FluenceEnv \<Rightarrow> (string \<times> json) list \<Rightarrow> FluenceEnv list \<Rightarrow> Deals \<Rightarrow> Deals" where
  "placeDeals dflt ((workerName, deal) # rest) (a # as) deals =
     placeDeals dflt rest as (putDeal dflt a workerName deal deals)"
| "placeDeals dflt _ _ deals = deals"

fun placeHosts :: "(string \<times> json) list \<Rightarrow> FluenceEnv list \<Rightarrow> Hosts \<Rightarrow> Hosts" where
  "placeHosts ((workerName, host) # rest) (a # as) hosts =
     placeHosts rest as (putHost a workerName host hosts)"
| "placeHosts _ _ hosts = hosts"





text \<open>The two flat record maps of a document, and the document that the migration returns.\<close>

definition dealsOf :: "json \<Rightarrow> (string \<times> json) list" where
  "dealsOf config = objectEntries (get config ''deals'')"

definition hostsOf :: "json \<Rightarrow> (string \<times> json) list" where
  "hostsOf config = objectEntries (get config ''hosts'')"

definition resultDocument :: "Deals \<Rightarrow> Hosts \<Rightarrow> json" where
  "resultDocument deals hosts =
     JObj ([(''version'', JNum 1)]
           @ (if deals = [] then [] else [(''deals'', envMapJson deals)])
           @ (if hosts = [] then [] else [(''hosts'', envMapJson hosts)]))"

section \<open>Runs of the examples\<close>


definition aliceCall :: "FluenceEnv \<Rightarrow> PromptCall" where
  "aliceCall a =
     \<lparr>question = ''Select the environment that you used for deploying worker alice with dealId: x1 at /project/.fluence/workers.yaml'',
      suggested = Some Kras, answer = a\<rparr>"

definition bobCall :: "FluenceEnv \<Rightarrow> PromptCall" where
  "bobCall a =
     \<lparr>question = ''Select the environment that you used for deploying worker bob with dealId: x2 at /project/.fluence/workers.yaml'',
      suggested = Some Kras, answer = a\<rparr>"

definition examplePath :: string where
  "examplePath = ''/project/.fluence/workers.yaml''"

definition onlyBob :: json where
  "onlyBob =
     JObj [(''version'', JNum 1),
           (''deals'', JObj [(''kras'', JObj [(''bob'', exampleDeal ''x2'' ''kras'')])])]"



definition bothDeals :: json where
  "bothDeals =
     JObj [(''version'', JNum 1),
           (''deals'', JObj [(''kras'', JObj [(''alice'', exampleDeal ''x1'' ''kras''),
                                              (''bob'', exampleDeal ''x2'' ''kras'')])])]"

section \<open>Closed-world shapes\<close>

text \<open>
  The closed-world shapes that the claim about the validator speaks of, written from
  the spec's words: only declared fields, every required field present, enumerated
  fields within their value set.
\<close>

definition dealFields :: "string list" where
  "dealFields = [''definition'', ''timestamp'', ''dealId'', ''dealIdOriginal'',
                 ''chainNetwork'', ''chainNetworkId'']"

definition dealRequired :: "string list" where
  "dealRequired = [''timestamp'', ''definition'', ''dealId'', ''dealIdOriginal'',
                   ''chainNetworkId'']"

definition hostFields :: "string list" where
  "hostFields = [''definition'', ''timestamp'', ''dummyDealId'', ''installation_spells'',
                 ''relayId'']"

definition hostRequired :: "string list" where
  "hostRequired = [''timestamp'', ''definition'', ''installation_spells'', ''relayId'',
                   ''dummyDealId'']"

definition isString :: "json option \<Rightarrow> bool" where
  "isString v = (case v of Some (JStr s) \<Rightarrow> True | _ \<Rightarrow> False)"

definition closedDeal :: "FluenceEnv list \<Rightarrow> json \<Rightarrow> bool" where
  "closedDeal CHAIN_ENV d =
     (case d of
        JObj fs \<Rightarrow>
          set (map fst fs) \<subseteq> set dealFields
          \<and> list_all (\<lambda>k. map_of fs k \<noteq> None) dealRequired
          \<and> list_all (\<lambda>k. isString (map_of fs k))
               [''timestamp'', ''definition'', ''dealId'', ''dealIdOriginal'']
          \<and> (case map_of fs ''chainNetworkId'' of Some (JNum q) \<Rightarrow> isInteger q | _ \<Rightarrow> False)
          \<and> (case map_of fs ''chainNetwork'' of
                None \<Rightarrow> True
              | Some v \<Rightarrow> v \<in> set (map (\<lambda>e. JStr (envName e)) CHAIN_ENV))
      | _ \<Rightarrow> False)"

definition closedSpell :: "json \<Rightarrow> bool" where
  "closedSpell x =
     (case x of
        JObj fs \<Rightarrow>
          set (map fst fs) \<subseteq> {''host_id'', ''spell_id'', ''worker_id''}
          \<and> list_all (\<lambda>k. isString (map_of fs k)) [''host_id'', ''spell_id'', ''worker_id'']
      | _ \<Rightarrow> False)"

definition closedHost :: "json \<Rightarrow> bool" where
  "closedHost h =
     (case h of
        JObj fs \<Rightarrow>
          set (map fst fs) \<subseteq> set hostFields
          \<and> list_all (\<lambda>k. map_of fs k \<noteq> None) hostRequired
          \<and> list_all (\<lambda>k. isString (map_of fs k))
               [''timestamp'', ''definition'', ''relayId'', ''dummyDealId'']
          \<and> (case map_of fs ''installation_spells'' of
                Some (JArr xs) \<Rightarrow> list_all closedSpell xs
              | _ \<Rightarrow> False)
      | _ \<Rightarrow> False)"

definition closedRecordMap :: "(json \<Rightarrow> bool) \<Rightarrow> json option \<Rightarrow> bool" where
  "closedRecordMap ok m =
     (case m of
        None \<Rightarrow> True
      | Some JNull \<Rightarrow> True
      | Some (JObj rs) \<Rightarrow>
          list_all (\<lambda>n. case map_of rs n of None \<Rightarrow> True | Some r \<Rightarrow> ok r) (map fst rs)
      | _ \<Rightarrow> False)"

definition closedEnvMap :: "(json \<Rightarrow> bool) \<Rightarrow> json option \<Rightarrow> bool" where
  "closedEnvMap ok m =
     (case m of
        None \<Rightarrow> True
      | Some JNull \<Rightarrow> True
      | Some (JObj cs) \<Rightarrow>
          set (map fst cs) \<subseteq> set (map envName [Custom, Dar, Kras, Local, Stage])
          \<and> list_all (\<lambda>k. closedRecordMap ok (map_of cs k)) (map fst cs)
      | _ \<Rightarrow> False)"

definition closedV0 :: "FluenceEnv list \<Rightarrow> json \<Rightarrow> bool" where
  "closedV0 CHAIN_ENV doc =
     (case doc of
        JObj es \<Rightarrow>
          set (map fst es) \<subseteq> {''version'', ''deals'', ''hosts''}
          \<and> map_of es ''version'' = Some (JNum 0)
          \<and> closedRecordMap (closedDeal CHAIN_ENV) (map_of es ''deals'')
          \<and> closedRecordMap closedHost (map_of es ''hosts'')
      | _ \<Rightarrow> False)"

definition closedV1 :: "FluenceEnv list \<Rightarrow> json \<Rightarrow> bool" where
  "closedV1 CHAIN_ENV doc =
     (case doc of
        JObj es \<Rightarrow>
          set (map fst es) \<subseteq> {''version'', ''deals'', ''hosts''}
          \<and> map_of es ''version'' = Some (JNum 1)
          \<and> closedEnvMap (closedDeal CHAIN_ENV) (map_of es ''deals'')
          \<and> closedEnvMap closedHost (map_of es ''hosts'')
      | _ \<Rightarrow> False)"

text \<open>Documents that break one rule each.\<close>

definition extraKeyDoc :: json where
  "extraKeyDoc = JObj [(''version'', JNum 0), (''extra'', JNull)]"

definition unknownEnvDoc :: json where
  "unknownEnvDoc = JObj [(''version'', JNum 1), (''deals'', JObj [(''testnet'', JObj [])])]"

definition unknownNetworkDoc :: json where
  "unknownNetworkDoc =
     JObj [(''version'', JNum 0), (''deals'', JObj [(''alice'', exampleDeal ''x1'' ''mainnet'')])]"

definition missingFieldDoc :: json where
  "missingFieldDoc =
     JObj [(''version'', JNum 0),
           (''deals'', JObj [(''alice'', JObj [(''dealId'', JStr ''x1''),
              (''timestamp'', JStr ''t''), (''definition'', JStr ''cid1'')])])]"


section \<open>Lemmas\<close>

lemma dealsLoop_replay:
  "dealsLoop ask cp dflt es deals (p, lg) = (deals', (p', lg')) \<Longrightarrow>
   \<exists>calls. lg' = lg @ calls \<and> length calls = length es
     \<and> map question calls = map (\<lambda>(n, d). dealQuestion cp n d) es
     \<and> map suggested calls = map (\<lambda>(n, d). chainNetwork d) es
     \<and> deals' = placeDeals dflt es (map answer calls) deals"
proof (induction es arbitrary: deals p lg)
  case Nil
  then show ?case by simp
next
  case (Cons e es)
  obtain n d where e: "e = (n, d)" by (cases e)
  obtain a q where ask: "ask p (dealQuestion cp n d) (chainNetwork d) = (a, q)"
    by (cases "ask p (dealQuestion cp n d) (chainNetwork d)")
  let ?c = "\<lparr>question = dealQuestion cp n d, suggested = chainNetwork d, answer = a\<rparr>"
  from Cons.prems have
    "dealsLoop ask cp dflt es (putDeal dflt a n d deals) (q, lg @ [?c]) = (deals', (p', lg'))"
    by (simp add: e fluenceEnvPrompt_def ask)
  from Cons.IH [OF this] obtain calls where
    c: "lg' = (lg @ [?c]) @ calls" "length calls = length es"
       "map question calls = map (\<lambda>(n, d). dealQuestion cp n d) es"
       "map suggested calls = map (\<lambda>(n, d). chainNetwork d) es"
       "deals' = placeDeals dflt es (map answer calls) (putDeal dflt a n d deals)"
    by blast
  show ?case
    by (rule exI [of _ "?c # calls"]) (simp add: c e)
qed

lemma hostsLoop_replay:
  "hostsLoop ask cp es hosts (p, lg) = (hosts', (p', lg')) \<Longrightarrow>
   \<exists>calls. lg' = lg @ calls \<and> length calls = length es
     \<and> map question calls = map (\<lambda>(n, h). hostQuestion cp n h) es
     \<and> map suggested calls = map (\<lambda>_. Some Custom) es
     \<and> hosts' = placeHosts es (map answer calls) hosts"
proof (induction es arbitrary: hosts p lg)
  case Nil
  then show ?case by simp
next
  case (Cons e es)
  obtain n h where e: "e = (n, h)" by (cases e)
  obtain a q where ask: "ask p (hostQuestion cp n h) (Some Custom) = (a, q)"
    by (cases "ask p (hostQuestion cp n h) (Some Custom)")
  let ?c = "\<lparr>question = hostQuestion cp n h, suggested = Some Custom, answer = a\<rparr>"
  from Cons.prems have
    "hostsLoop ask cp es (putHost a n h hosts) (q, lg @ [?c]) = (hosts', (p', lg'))"
    by (simp add: e fluenceEnvPrompt_def ask)
  from Cons.IH [OF this] obtain calls where
    c: "lg' = (lg @ [?c]) @ calls" "length calls = length es"
       "map question calls = map (\<lambda>(n, h). hostQuestion cp n h) es"
       "map suggested calls = map (\<lambda>_. Some Custom) es"
       "hosts' = placeHosts es (map answer calls) (putHost a n h hosts)"
    by blast
  show ?case
    by (rule exI [of _ "?c # calls"]) (simp add: c e)
qed






lemma update_nonempty: "AList.update k v al \<noteq> []"
  by (cases al) auto











lemma putDeal_nonempty: "putDeal dflt env n d m \<noteq> []"
  by (simp add: putDeal_def update_nonempty split: option.splits)

lemma putHost_nonempty: "putHost env n h m \<noteq> []"
  by (simp add: putHost_def update_nonempty split: option.splits)

lemma placeDeals_nonempty: "m \<noteq> [] \<Longrightarrow> placeDeals dflt es as m \<noteq> []"
  by (induction dflt es as m rule: placeDeals.induct) (auto simp: putDeal_nonempty)

lemma placeHosts_nonempty: "m \<noteq> [] \<Longrightarrow> placeHosts es as m \<noteq> []"
  by (induction es as m rule: placeHosts.induct) (auto simp: putHost_nonempty)

lemma migration_run:
  assumes "migration ask cp dflt CE config (p, []) = (Inr out, (p', lg))"
  shows "length lg = length (dealsOf config) + length (hostsOf config)"
    and "map question (take (length (dealsOf config)) lg)
           = map (\<lambda>(n, d). dealQuestion cp n d) (dealsOf config)"
    and "map suggested (take (length (dealsOf config)) lg)
           = map (\<lambda>(n, d). chainNetwork d) (dealsOf config)"
    and "map question (drop (length (dealsOf config)) lg)
           = map (\<lambda>(n, h). hostQuestion cp n h) (hostsOf config)"
    and "map suggested (drop (length (dealsOf config)) lg)
           = map (\<lambda>_. Some Custom) (hostsOf config)"
    and "out = resultDocument
                 (placeDeals dflt (dealsOf config)
                    (map answer (take (length (dealsOf config)) lg)) [])
                 (placeHosts (hostsOf config)
                    (map answer (drop (length (dealsOf config)) lg)) [])"
proof -
  have valid: "validateConfigSchemaV0 CE config = []"
    using assms by (cases "validateConfigSchemaV0 CE config") (simp_all add: migration_def)
  obtain deals p1 lg1 where d: "dealsLoop ask cp dflt (dealsOf config) [] (p, []) = (deals, (p1, lg1))"
    by (metis prod.exhaust)
  obtain hosts p2 lg2 where h: "hostsLoop ask cp (hostsOf config) [] (p1, lg1) = (hosts, (p2, lg2))"
    by (metis prod.exhaust)
  from assms valid d h have out: "out = resultDocument deals hosts" and lg: "lg = lg2"
    by (simp_all add: migration_def dealsOf_def hostsOf_def resultDocument_def)
  from dealsLoop_replay [OF d] have
    dc: "length lg1 = length (dealsOf config)"
        "map question lg1 = map (\<lambda>(n, d). dealQuestion cp n d) (dealsOf config)"
        "map suggested lg1 = map (\<lambda>(n, d). chainNetwork d) (dealsOf config)"
        "deals = placeDeals dflt (dealsOf config) (map answer lg1) []"
    by auto
  from hostsLoop_replay [OF h] obtain hcalls where
    hc: "lg2 = lg1 @ hcalls" and
    hc': "length hcalls = length (hostsOf config)"
        "map question hcalls = map (\<lambda>(n, h). hostQuestion cp n h) (hostsOf config)"
        "map suggested hcalls = map (\<lambda>_. Some Custom) (hostsOf config)"
        "hosts = placeHosts (hostsOf config) (map answer hcalls) []"
    by auto
  have tk: "take (length (dealsOf config)) lg = lg1" and dr: "drop (length (dealsOf config)) lg = hcalls"
    using lg hc dc(1) by simp_all
  show "length lg = length (dealsOf config) + length (hostsOf config)"
    using lg hc dc(1) hc'(1) by simp
  show "map question (take (length (dealsOf config)) lg)
           = map (\<lambda>(n, d). dealQuestion cp n d) (dealsOf config)"
    using tk dc(2) by simp
  show "map suggested (take (length (dealsOf config)) lg)
           = map (\<lambda>(n, d). chainNetwork d) (dealsOf config)"
    using tk dc(3) by simp
  show "map question (drop (length (dealsOf config)) lg)
           = map (\<lambda>(n, h). hostQuestion cp n h) (hostsOf config)"
    using dr hc'(2) by simp
  show "map suggested (drop (length (dealsOf config)) lg)
           = map (\<lambda>_. Some Custom) (hostsOf config)"
    using dr hc'(3) by simp
  show "out = resultDocument
                 (placeDeals dflt (dealsOf config)
                    (map answer (take (length (dealsOf config)) lg)) [])
                 (placeHosts (hostsOf config)
                    (map answer (drop (length (dealsOf config)) lg)) [])"
    using out tk dr dc(4) hc'(4) by simp
qed

lemma migration_invalid:
  "validateConfigSchemaV0 CE config \<noteq> [] \<Longrightarrow>
   migration ask cp dflt CE config st =
     (Inl (Error (''Migration error. Errors: ''
                  @ validationErrorToString (validateConfigSchemaV0 CE config))), st)"
  by (cases "validateConfigSchemaV0 CE config") (simp_all add: migration_def)

lemma migration_valid:
  "validateConfigSchemaV0 CE config = [] \<Longrightarrow>
   \<exists>out st'. migration ask cp dflt CE config st = (Inr out, st')"
  by (simp add: migration_def split: prod.splits)











lemma run_twoDeals_kras_dar:
  "migration cannedAnswers examplePath Kras exampleChainEnv twoDeals ([Kras, Dar], [])
     = (Inr onlyBob, ([], [aliceCall Kras, bobCall Dar]))"
  by code_simp

lemma run_twoDeals_dar_dar:
  "migration cannedAnswers examplePath Kras exampleChainEnv twoDeals ([Dar, Dar], [])
     = (Inr onlyBob, ([], [aliceCall Dar, bobCall Dar]))"
  by code_simp


text \<open>
  Claim C3: after the migration every original deal and host record appears exactly once
  in the output, under exactly one category, and no category is empty. The code breaks
  this for deals. With two deals whose \<open>chainNetwork\<close> is \<open>kras\<close>, the operator
  answering \<open>kras\<close> for alice and \<open>dar\<close> for bob, the second iteration finds no
  \<open>deals[dar]\<close> and stores its fresh object under \<open>deals[kras]\<close>, over the object
  that held alice: alice is in no category of the output, and bob is under \<open>kras\<close>
  although the answer was \<open>dar\<close>. The hosts loop stores under \<open>hosts[env]\<close> and
  loses nothing.
\<close>

theorem deal_lost_when_answers_differ:
  "fst (migration cannedAnswers examplePath Kras exampleChainEnv twoDeals ([Kras, Dar], [])) = Inr onlyBob
   \<and> recordAt onlyBob ''deals'' Kras ''alice'' = None
   \<and> recordAt onlyBob ''deals'' Dar ''alice'' = None
   \<and> recordAt onlyBob ''deals'' Dar ''bob'' = None
   \<and> recordAt onlyBob ''deals'' Kras ''bob'' = Some (exampleDeal ''x2'' ''kras'')"
proof -
  have "recordAt onlyBob ''deals'' Kras ''alice'' = None" by code_simp
  moreover have "recordAt onlyBob ''deals'' Dar ''alice'' = None" by code_simp
  moreover have "recordAt onlyBob ''deals'' Dar ''bob'' = None" by code_simp
  moreover have "recordAt onlyBob ''deals'' Kras ''bob'' = Some (exampleDeal ''x2'' ''kras'')" by code_simp
  ultimately show ?thesis by (simp add: run_twoDeals_kras_dar)
qed

text \<open>
  Claim C2: every record is placed under the category resolved for it, and two records
  that resolve to the same category end up together in that category's sub-map. The code
  breaks this for deals. With two deals whose \<open>chainNetwork\<close> is \<open>kras\<close> and the
  operator answering \<open>dar\<close> for both, the two records resolve alike, whichever of the
  answer and the legacy field is taken as the resolution; but each iteration looks up
  \<open>deals[dar]\<close>, finds nothing and stores a fresh object under \<open>deals[kras]\<close>, so
  the output holds bob alone.
\<close>

theorem same_category_not_merged:
  "fst (migration cannedAnswers examplePath Kras exampleChainEnv twoDeals ([Dar, Dar], [])) = Inr onlyBob
   \<and> map answer (snd (snd (migration cannedAnswers examplePath Kras exampleChainEnv twoDeals ([Dar, Dar], []))))
       = [Dar, Dar]
   \<and> get onlyBob ''deals'' = Some (JObj [(''kras'', JObj [(''bob'', exampleDeal ''x2'' ''kras'')])])"
proof -
  have "get onlyBob ''deals'' = Some (JObj [(''kras'', JObj [(''bob'', exampleDeal ''x2'' ''kras'')])])"
    by code_simp
  then show ?thesis by (simp add: run_twoDeals_dar_dar aliceCall_def bobCall_def)
qed












text \<open>
  Claim C10: the migration is deterministic given the operator's answers. Two runs on
  the same document, with any two operators in any states, in which the answers given
  are the same in sequence, end with the same result: the same migrated document, or
  the same error.
\<close>

theorem migration_determined_by_answers:
  assumes "migration ask1 cp dflt CE config (p1, []) = (r1, (q1, lg1))"
    and "migration ask2 cp dflt CE config (p2, []) = (r2, (q2, lg2))"
    and "map answer lg1 = map answer lg2"
  shows "r1 = r2"
proof (cases "validateConfigSchemaV0 CE config = []")
  case False
  with assms(1,2) show ?thesis by (simp add: migration_invalid)
next
  case True
  from migration_valid [OF True, of ask1 cp dflt "(p1, [])"] assms(1)
  obtain out1 where r1: "r1 = Inr out1" by auto
  from migration_valid [OF True, of ask2 cp dflt "(p2, [])"] assms(2)
  obtain out2 where r2: "r2 = Inr out2" by auto
  have t: "map answer (take n lg1) = map answer (take n lg2)" for n
    using assms(3) by (simp add: take_map [symmetric])
  have d: "map answer (drop n lg1) = map answer (drop n lg2)" for n
    using assms(3) by (simp add: drop_map [symmetric])
  from assms(1) r1 have "out1 = resultDocument
                 (placeDeals dflt (dealsOf config)
                    (map answer (take (length (dealsOf config)) lg1)) [])
                 (placeHosts (hostsOf config)
                    (map answer (drop (length (dealsOf config)) lg1)) [])"
    by (intro migration_run(6)) simp
  moreover from assms(2) r2 have "out2 = resultDocument
                 (placeDeals dflt (dealsOf config)
                    (map answer (take (length (dealsOf config)) lg2)) [])
                 (placeHosts (hostsOf config)
                    (map answer (drop (length (dealsOf config)) lg2)) [])"
    by (intro migration_run(6)) simp
  ultimately show ?thesis by (simp add: r1 r2 t d)
qed

text \<open>
  Two different operators on the document with two deals: one reads the answers
  \<open>kras\<close>, \<open>kras\<close> from a list, the other accepts the suggestions, which are the same.
\<close>

lemma run_twoDeals_canned:
  "migration cannedAnswers examplePath Kras exampleChainEnv twoDeals ([Kras, Kras], [])
     = (Inr bothDeals, ([], [aliceCall Kras, bobCall Kras]))"
  by code_simp

lemma run_twoDeals_accept:
  "migration (acceptSuggested Dar) examplePath Kras exampleChainEnv twoDeals ((), [])
     = (Inr bothDeals, ((), [aliceCall Kras, bobCall Kras]))"
  by code_simp

theorem migration_determined_by_answers_witness:
  "migration cannedAnswers examplePath Kras exampleChainEnv twoDeals ([Kras, Kras], [])
     = (Inr bothDeals, ([], [aliceCall Kras, bobCall Kras]))
   \<and> migration (acceptSuggested Dar) examplePath Kras exampleChainEnv twoDeals ((), [])
     = (Inr bothDeals, ((), [aliceCall Kras, bobCall Kras]))
   \<and> map answer [aliceCall Kras, bobCall Kras] = map answer [aliceCall Kras, bobCall Kras]
   \<and> (Inr bothDeals :: error + json) = Inr bothDeals"
  using migration_determined_by_answers [OF run_twoDeals_canned run_twoDeals_accept]
        run_twoDeals_canned run_twoDeals_accept
  by simp






lemma validateProperties_empty_iff:
  "(validateProperties props p es = []) =
   (\<forall>(k, s) \<in> set props. \<forall>x. map_of es k = Some x \<longrightarrow> validate s (p @ ''/'' @ k) x = [])"
  by (induction props) (auto split: option.splits)

lemma validate_object_empty_iff:
  "(validate (SObject nl props req addl) p (JObj es) = []) =
   ((\<forall>k \<in> set req. map_of es k \<noteq> None)
    \<and> validateProperties props p es = []
    \<and> (\<forall>(k, x) \<in> set es. map_of props k = None \<longrightarrow>
          (case addl of None \<Rightarrow> False | Some s \<Rightarrow> validate s (p @ ''/'' @ k) x = [])))"
  by (auto simp: filter_empty_conv split: option.splits)

lemma object_shape:
  "validate (SObject nl props req addl) p v = [] \<Longrightarrow> (v = JNull \<and> nl) \<or> (\<exists>es. v = JObj es)"
  by (cases v) (auto split: if_splits)

lemma closed_object_keys:
  assumes "validate (SObject nl props req None) p (JObj es) = []"
  shows "fst ` set es \<subseteq> fst ` set props"
proof
  fix k assume "k \<in> fst ` set es"
  then obtain x where "(k, x) \<in> set es" by auto
  with assms have "map_of props k \<noteq> None"
    unfolding validate_object_empty_iff by auto
  then show "k \<in> fst ` set props" by (simp add: map_of_eq_None_iff)
qed

lemma object_required:
  "validate (SObject nl props req addl) p (JObj es) = [] \<Longrightarrow> k \<in> set req \<Longrightarrow> map_of es k \<noteq> None"
  unfolding validate_object_empty_iff by blast

lemma object_property:
  "validate (SObject nl props req addl) p (JObj es) = [] \<Longrightarrow> (k, s) \<in> set props \<Longrightarrow>
   map_of es k = Some x \<Longrightarrow> validate s (p @ ''/'' @ k) x = []"
  unfolding validate_object_empty_iff validateProperties_empty_iff by blast

lemma object_additional:
  "validate (SObject nl props req (Some s)) p (JObj es) = [] \<Longrightarrow> (k, x) \<in> set es \<Longrightarrow>
   map_of props k = None \<Longrightarrow> validate s (p @ ''/'' @ k) x = []"
  unfolding validate_object_empty_iff by auto

lemma string_shape:
  "validate (SString nl en) p v = [] \<Longrightarrow> (v = JNull \<and> nl) \<or> (\<exists>s. v = JStr s)"
  by (cases v) (auto split: if_splits)

lemma string_enum:
  "validate (SString nl (Some allowed)) p v = [] \<Longrightarrow> v \<in> JStr ` set allowed"
  by (auto split: if_splits)

lemma integer_const:
  "validate (SInteger (Some c)) p v = [] \<Longrightarrow> v = JNum (of_int c)"
  by (auto split: if_splits)

lemma integer_shape:
  "validate (SInteger c) p v = [] \<Longrightarrow> \<exists>q. v = JNum q \<and> isInteger q"
  by (cases v) (auto split: if_splits)

lemma array_shape:
  assumes "validate (SArray items) p v = []"
  shows "\<exists>xs. v = JArr xs \<and> (\<forall>i < length xs. validate items (p @ ''/'' @ showNat i) (xs ! i) = [])"
proof -
  from assms obtain xs where v: "v = JArr xs" by (cases v) auto
  from assms have all: "\<forall>e \<in> set (zip [0 ..< length xs] xs).
      (case e of (i, x) \<Rightarrow> validate items (p @ ''/'' @ showNat i) x) = []"
    by (simp add: v)
  have "validate items (p @ ''/'' @ showNat i) (xs ! i) = []" if "i < length xs" for i
  proof -
    from that have "zip [0 ..< length xs] xs ! i = (i, xs ! i)" by simp
    moreover from that have "zip [0 ..< length xs] xs ! i \<in> set (zip [0 ..< length xs] xs)"
      by (intro nth_mem) simp
    ultimately have "(i, xs ! i) \<in> set (zip [0 ..< length xs] xs)" by simp
    with all show ?thesis by fastforce
  qed
  with v show ?thesis by blast
qed

lemma required_string:
  assumes "validate (SObject nl props req addl) p (JObj fs) = []"
    and "k \<in> set req" and "(k, SString False en) \<in> set props"
  shows "isString (map_of fs k)"
proof -
  from object_required [OF assms(1,2)] obtain v where v: "map_of fs k = Some v" by auto
  from object_property [OF assms(1,3) v] have "validate (SString False en) (p @ ''/'' @ k) v = []" .
  from string_shape [OF this] show ?thesis by (auto simp: v isString_def)
qed

lemma deal_closed:
  assumes "validate (dealSchema CE) p d = []"
  shows "closedDeal CE d"
proof -
  note v = assms [unfolded dealSchema_def]
  from object_shape [OF v] obtain fs where d: "d = JObj fs" by auto
  note vf = v [unfolded d]
  have keys: "set (map fst fs) \<subseteq> set dealFields"
    using closed_object_keys [OF vf] by (simp add: dealFields_def workerInfoProperties_def)
  have req: "list_all (\<lambda>k. map_of fs k \<noteq> None) dealRequired"
    using object_required [OF vf]
    by (simp add: dealRequired_def workerInfoRequired_def)
  have str: "isString (map_of fs k)"
    if "k \<in> set [''timestamp'', ''definition'', ''dealId'', ''dealIdOriginal'']" for k
    using that
    by (intro required_string [OF vf, of k None])
       (auto simp: workerInfoRequired_def workerInfoProperties_def)
  have num: "case map_of fs ''chainNetworkId'' of Some (JNum q) \<Rightarrow> isInteger q | _ \<Rightarrow> False"
  proof -
    from object_required [OF vf, of "''chainNetworkId''"]
    obtain x where x: "map_of fs ''chainNetworkId'' = Some x" by auto
    have "validate (SInteger None) (p @ ''/'' @ ''chainNetworkId'') x = []"
      by (rule object_property [OF vf _ x]) simp
    from integer_shape [OF this] show ?thesis by (auto simp: x)
  qed
  have enum: "v \<in> set (map (\<lambda>e. JStr (envName e)) CE)" if "map_of fs ''chainNetwork'' = Some v" for v
  proof -
    have "validate (SString True (Some (map envName CE))) (p @ ''/'' @ ''chainNetwork'') v = []"
      by (rule object_property [OF vf _ that]) simp
    from string_enum [OF this] show ?thesis by auto
  qed
  from keys req str num enum show ?thesis
    by (simp add: closedDeal_def d split: option.splits)
qed

lemma spell_closed:
  assumes "validate (SObject False
             [(''host_id'', SString False None), (''spell_id'', SString False None),
              (''worker_id'', SString False None)]
             [''host_id'', ''spell_id'', ''worker_id''] None) p x = []"
  shows "closedSpell x"
proof -
  from object_shape [OF assms] obtain fs where x: "x = JObj fs" by auto
  note vf = assms [unfolded x]
  have keys: "set (map fst fs) \<subseteq> {''host_id'', ''spell_id'', ''worker_id''}"
    using closed_object_keys [OF vf] by simp
  have str: "isString (map_of fs k)" if "k \<in> set [''host_id'', ''spell_id'', ''worker_id'']" for k
    using that by (intro required_string [OF vf, of k None]) auto
  from keys str show ?thesis by (simp add: closedSpell_def x)
qed

lemma host_closed:
  assumes "validate hostSchema p h = []"
  shows "closedHost h"
proof -
  note v = assms [unfolded hostSchema_def]
  from object_shape [OF v] obtain fs where h: "h = JObj fs" by auto
  note vf = v [unfolded h]
  have keys: "set (map fst fs) \<subseteq> set hostFields"
    using closed_object_keys [OF vf] by (simp add: hostFields_def workerInfoProperties_def)
  have req: "list_all (\<lambda>k. map_of fs k \<noteq> None) hostRequired"
    using object_required [OF vf]
    by (simp add: hostRequired_def workerInfoRequired_def)
  have str: "isString (map_of fs k)"
    if "k \<in> set [''timestamp'', ''definition'', ''relayId'', ''dummyDealId'']" for k
    using that
    by (intro required_string [OF vf, of k None])
       (auto simp: workerInfoRequired_def workerInfoProperties_def)
  have spells: "case map_of fs ''installation_spells'' of
                  Some (JArr xs) \<Rightarrow> list_all closedSpell xs | _ \<Rightarrow> False"
  proof -
    from object_required [OF vf, of "''installation_spells''"]
    obtain x where x: "map_of fs ''installation_spells'' = Some x"
      by (auto simp: workerInfoRequired_def)
    have "validate (SArray (SObject False
             [(''host_id'', SString False None), (''spell_id'', SString False None),
              (''worker_id'', SString False None)]
             [''host_id'', ''spell_id'', ''worker_id''] None))
           (p @ ''/'' @ ''installation_spells'') x = []"
      by (rule object_property [OF vf _ x]) (simp add: workerInfoProperties_def)
    from array_shape [OF this] obtain xs where xs: "x = JArr xs"
      and valid: "\<forall>i < length xs. validate (SObject False
             [(''host_id'', SString False None), (''spell_id'', SString False None),
              (''worker_id'', SString False None)]
             [''host_id'', ''spell_id'', ''worker_id''] None)
           ((p @ ''/'' @ ''installation_spells'') @ ''/'' @ showNat i) (xs ! i) = []"
      by blast
    have "closedSpell (xs ! i)" if "i < length xs" for i
      using valid that by (intro spell_closed) blast
    then have "list_all closedSpell xs" by (simp add: list_all_length)
    with x xs show ?thesis by simp
  qed
  from keys req str spells show ?thesis by (simp add: closedHost_def h)
qed

lemma record_map_closed:
  assumes "validate (SObject True [(w, s)] [] (Some s)) p m = []"
    and ok: "\<And>q r. validate s q r = [] \<Longrightarrow> ok r"
  shows "closedRecordMap ok (Some m)"
proof -
  from object_shape [OF assms(1)] consider "m = JNull" | rs where "m = JObj rs" by auto
  then show ?thesis
  proof cases
    case 1
    then show ?thesis by (simp add: closedRecordMap_def)
  next
    case 2
    note v = assms(1) [unfolded 2]
    have "ok r" if r: "map_of rs n = Some r" for n r
    proof (cases "n = w")
      case True
      have "validate s (p @ ''/'' @ w) r = []"
        by (rule object_property [OF v _ r [unfolded True]]) simp
      then show ?thesis by (rule ok)
    next
      case False
      from r have "(n, r) \<in> set rs" by (rule map_of_SomeD)
      then have "validate s (p @ ''/'' @ n) r = []"
        by (rule object_additional [OF v]) (simp add: False)
      then show ?thesis by (rule ok)
    qed
    then show ?thesis
      by (auto simp: closedRecordMap_def 2 list_all_iff split: option.splits)
  qed
qed

lemma deals_map_closed:
  "validate (mapOfDealsSchema CE) p m = [] \<Longrightarrow> closedRecordMap (closedDeal CE) (Some m)"
  unfolding mapOfDealsSchema_def by (erule record_map_closed) (rule deal_closed)

lemma hosts_map_closed:
  "validate mapOfHostsSchema p m = [] \<Longrightarrow> closedRecordMap closedHost (Some m)"
  unfolding mapOfHostsSchema_def by (erule record_map_closed) (rule host_closed)

lemma closedRecordMap_None: "closedRecordMap ok None"
  by (simp add: closedRecordMap_def)

lemma env_map_closed:
  assumes "validate (SObject True [(''custom'', s), (''dar'', s), (''kras'', s), (''local'', s),
                                   (''stage'', s)] [] None) p m = []"
    and ok: "\<And>q r. validate s q r = [] \<Longrightarrow> closedRecordMap ok (Some r)"
  shows "closedEnvMap ok (Some m)"
proof -
  from object_shape [OF assms(1)] consider "m = JNull" | cs where "m = JObj cs" by auto
  then show ?thesis
  proof cases
    case 1
    then show ?thesis by (simp add: closedEnvMap_def)
  next
    case 2
    note v = assms(1) [unfolded 2]
    have keys: "set (map fst cs) \<subseteq> set (map envName [Custom, Dar, Kras, Local, Stage])"
      using closed_object_keys [OF v] by simp
    have "closedRecordMap ok (map_of cs k)" if k: "k \<in> set (map fst cs)" for k
    proof (cases "map_of cs k")
      case None
      then show ?thesis by (simp add: closedRecordMap_None)
    next
      case (Some r)
      from k keys have "(k, s) \<in> set [(''custom'', s), (''dar'', s), (''kras'', s),
                                       (''local'', s), (''stage'', s)]"
        by auto
      from object_property [OF v this Some] have "validate s (p @ ''/'' @ k) r = []" .
      then show ?thesis unfolding Some by (rule ok)
    qed
    with keys show ?thesis
      by (simp add: closedEnvMap_def 2 list_all_iff)
  qed
qed

lemma v0_closed:
  assumes "validateConfigSchemaV0 CE doc = []"
  shows "closedV0 CE doc"
proof -
  note v = assms [unfolded validateConfigSchemaV0_def configSchemaV0_def]
  from object_shape [OF v] obtain es where doc: "doc = JObj es" by auto
  note ve = v [unfolded doc]
  have keys: "set (map fst es) \<subseteq> {''version'', ''deals'', ''hosts''}"
    using closed_object_keys [OF ve] by simp
  from object_required [OF ve, of "''version''"] obtain x where x: "map_of es ''version'' = Some x"
    by auto
  have "validate (SInteger (Some 0)) ([] @ ''/'' @ ''version'') x = []"
    by (rule object_property [OF ve _ x]) simp
  from integer_const [OF this] have version: "map_of es ''version'' = Some (JNum 0)"
    by (simp add: x)
  have deals: "closedRecordMap (closedDeal CE) (map_of es ''deals'')"
  proof (cases "map_of es ''deals''")
    case None
    then show ?thesis by (simp add: closedRecordMap_None)
  next
    case (Some m)
    have "validate (mapOfDealsSchema CE) ([] @ ''/'' @ ''deals'') m = []"
      by (rule object_property [OF ve _ Some]) simp
    then show ?thesis unfolding Some by (rule deals_map_closed)
  qed
  have hosts: "closedRecordMap closedHost (map_of es ''hosts'')"
  proof (cases "map_of es ''hosts''")
    case None
    then show ?thesis by (simp add: closedRecordMap_None)
  next
    case (Some m)
    have "validate mapOfHostsSchema ([] @ ''/'' @ ''hosts'') m = []"
      by (rule object_property [OF ve _ Some]) simp
    then show ?thesis unfolding Some by (rule hosts_map_closed)
  qed
  from keys version deals hosts show ?thesis by (simp add: closedV0_def doc)
qed

lemma closedEnvMap_None: "closedEnvMap ok None"
  by (simp add: closedEnvMap_def)

lemma v1_closed:
  assumes "validateConfigSchemaV1 CE doc = []"
  shows "closedV1 CE doc"
proof -
  note v = assms [unfolded validateConfigSchemaV1_def configSchemaV1_def]
  from object_shape [OF v] obtain es where doc: "doc = JObj es" by auto
  note ve = v [unfolded doc]
  have keys: "set (map fst es) \<subseteq> {''version'', ''deals'', ''hosts''}"
    using closed_object_keys [OF ve] by simp
  from object_required [OF ve, of "''version''"] obtain x where x: "map_of es ''version'' = Some x"
    by auto
  have "validate (SInteger (Some 1)) ([] @ ''/'' @ ''version'') x = []"
    by (rule object_property [OF ve _ x]) simp
  from integer_const [OF this] have version: "map_of es ''version'' = Some (JNum 1)"
    by (simp add: x)
  have deals: "closedEnvMap (closedDeal CE) (map_of es ''deals'')"
  proof (cases "map_of es ''deals''")
    case None
    then show ?thesis by (simp add: closedEnvMap_None)
  next
    case (Some m)
    have "validate (SObject True
             [(''custom'', mapOfDealsSchema CE), (''dar'', mapOfDealsSchema CE),
              (''kras'', mapOfDealsSchema CE), (''local'', mapOfDealsSchema CE),
              (''stage'', mapOfDealsSchema CE)] [] None) ([] @ ''/'' @ ''deals'') m = []"
      by (rule object_property [OF ve _ Some]) simp
    then show ?thesis unfolding Some by (rule env_map_closed) (rule deals_map_closed)
  qed
  have hosts: "closedEnvMap closedHost (map_of es ''hosts'')"
  proof (cases "map_of es ''hosts''")
    case None
    then show ?thesis by (simp add: closedEnvMap_None)
  next
    case (Some m)
    have "validate (SObject True
             [(''custom'', mapOfHostsSchema), (''dar'', mapOfHostsSchema),
              (''kras'', mapOfHostsSchema), (''local'', mapOfHostsSchema),
              (''stage'', mapOfHostsSchema)] [] None) ([] @ ''/'' @ ''hosts'') m = []"
      by (rule object_property [OF ve _ Some]) simp
    then show ?thesis unfolding Some by (rule env_map_closed) (rule hosts_map_closed)
  qed
  from keys version deals hosts show ?thesis by (simp add: closedV1_def doc)
qed

text \<open>
  Claim C7: validation against the version-0 and version-1 schemas enforces closed-world
  object shapes. A document that either validator accepts is an object with no key
  besides \<open>version\<close>, \<open>deals\<close> and \<open>hosts\<close> and with \<open>version\<close> present and equal
  to the schema's constant; at version 1 the keys of \<open>deals\<close> and of \<open>hosts\<close> are
  within the fixed environment set; every deal and host record has only declared fields
  and every required one, of the declared type, down to the items of
  \<open>installation_spells\<close>; and a \<open>chainNetwork\<close> that is present is one of
  \<open>CHAIN_ENV\<close>. Any other document is rejected.
\<close>

theorem schemas_closed_world:
  "(validateConfigSchemaV0 CE doc = [] \<longrightarrow> closedV0 CE doc)
   \<and> (validateConfigSchemaV1 CE doc = [] \<longrightarrow> closedV1 CE doc)"
  using v0_closed v1_closed by blast

text \<open>
  The claim on examples: scenario A and the version-1 document are accepted and closed;
  an extra top-level key, an unknown environment under \<open>deals\<close>, a \<open>chainNetwork\<close>
  outside \<open>CHAIN_ENV\<close> and a missing required field are each rejected.
\<close>

theorem schemas_closed_world_witness:
  "validateConfigSchemaV0 exampleChainEnv scenarioA = []
   \<and> closedV0 exampleChainEnv scenarioA
   \<and> validateConfigSchemaV1 exampleChainEnv latestDoc = []
   \<and> closedV1 exampleChainEnv latestDoc
   \<and> validateConfigSchemaV0 exampleChainEnv extraKeyDoc \<noteq> []
   \<and> validateConfigSchemaV1 exampleChainEnv unknownEnvDoc \<noteq> []
   \<and> validateConfigSchemaV0 exampleChainEnv unknownNetworkDoc \<noteq> []
   \<and> validateConfigSchemaV0 exampleChainEnv missingFieldDoc \<noteq> []"
proof -
  have a: "validateConfigSchemaV0 exampleChainEnv scenarioA = []" by code_simp
  have b: "validateConfigSchemaV1 exampleChainEnv latestDoc = []" by code_simp
  have c: "\<not> closedV0 exampleChainEnv extraKeyDoc" by code_simp
  have d: "\<not> closedV1 exampleChainEnv unknownEnvDoc" by code_simp
  have e: "\<not> closedV0 exampleChainEnv unknownNetworkDoc" by code_simp
  have f: "\<not> closedV0 exampleChainEnv missingFieldDoc" by code_simp
  show ?thesis
    using schemas_closed_world [of exampleChainEnv scenarioA]
          schemas_closed_world [of exampleChainEnv latestDoc]
          schemas_closed_world [of exampleChainEnv extraKeyDoc]
          schemas_closed_world [of exampleChainEnv unknownEnvDoc]
          schemas_closed_world [of exampleChainEnv unknownNetworkDoc]
          schemas_closed_world [of exampleChainEnv missingFieldDoc]
          a b c d e f
    by blast
qed





lemma versionOf_v1:
  assumes "validateConfigSchemaV1 CE doc = []"
  shows "versionOf doc = Some 1"
proof -
  from v1_closed [OF assms] obtain es where "doc = JObj es" "map_of es ''version'' = Some (JNum 1)"
    by (cases doc) (auto simp: closedV1_def)
  then show ?thesis by (simp add: versionOf_def isInteger_def)
qed

lemma v1_not_v0:
  assumes "validateConfigSchemaV1 CE doc = []"
  shows "validateConfigSchemaV0 CE doc \<noteq> []"
proof
  assume "validateConfigSchemaV0 CE doc = []"
  from v0_closed [OF this] v1_closed [OF assms] show False
    by (cases doc) (auto simp: closedV0_def closedV1_def)
qed

text \<open>
  Claim C9: for a document already at the latest version, loading and migrating is a
  no-op. The chain has exactly one step; its domain is version 0, so it rejects a
  version-1 document; the chain run from version 1 applies no step and returns the
  document as it is, with no prompt; and so does the driver.
\<close>

theorem latest_document_passes_unchanged:
  assumes "validateConfigSchemaV1 CE doc = []"
  shows "length (migrations ask cp dflt CE) = 1
       \<and> validateConfigSchemaV0 CE doc \<noteq> []
       \<and> migrate (migrations ask cp dflt CE) 1 doc st = (Inr doc, st)
       \<and> loadConfig (allSchemas CE) (migrations ask cp dflt CE) doc st = (Inr doc, st)"
proof -
  have "loadConfig (allSchemas CE) (migrations ask cp dflt CE) doc st = (Inr doc, st)"
    using assms
    by (simp add: loadConfig_def versionOf_v1 [OF assms] allSchemas_def validateConfigSchemaV1_def)
  then show ?thesis
    by (simp add: v1_not_v0 [OF assms] migrations_def migrate_def)
qed

lemma validate_latestDoc: "validateConfigSchemaV1 exampleChainEnv latestDoc = []"
  by code_simp

text \<open>The claim at a version-1 document with one deal under \<open>kras\<close>.\<close>

theorem latest_document_passes_unchanged_witness:
  "validateConfigSchemaV1 exampleChainEnv latestDoc = []
   \<and> length (migrations cannedAnswers examplePath Kras exampleChainEnv) = 1
   \<and> migrate (migrations cannedAnswers examplePath Kras exampleChainEnv) 1 latestDoc ([Dar], [])
       = (Inr latestDoc, ([Dar], []))
   \<and> loadConfig (allSchemas exampleChainEnv) (migrations cannedAnswers examplePath Kras exampleChainEnv)
        latestDoc ([Dar], [])
       = (Inr latestDoc, ([Dar], []))"
  using latest_document_passes_unchanged
          [OF validate_latestDoc, of cannedAnswers examplePath Kras "([Dar], [])"]
        validate_latestDoc
  by simp

end
